theory Spec2Isabelle
  imports Main "HOL-Library.Char_ord" "HOL-Library.List_Lexorder" "HOL-Library.Product_Lexorder"
begin

section \<open>Token service (jwt\_manager.py)\<close>

text \<open>
  The token service calls the JOSE library. The library is not part of the repository, so
  its three objects are modelled as follows.
  \<^item> A token string is viewed through its compact serialisation: the algorithm named in
    the header, the payload and the signature segment. A string that does not split into
    three decodable segments is \<open>Malformed\<close>.
  \<^item> The keyed hash that signs a token is a parameter \<open>hmac\<close> of the model; nothing is
    assumed about it.
  \<^item> Clock readings are integers counting microseconds since the epoch, the resolution
    of \<open>datetime\<close>; the library converts a \<open>datetime\<close> to whole seconds.
  Strings are byte strings (UTF-8).
\<close>

datatype jvalue = JStr string | JNum int

type_synonym claims = "(string \<times> jvalue) list"

datatype payload = Claims claims | NotAnObject string

datatype token_string = Compact string payload string | Malformed string

type_synonym mac = "string \<Rightarrow> string \<times> payload \<Rightarrow> string"

datatype jose_error = JWTError | JWTClaimsError | ExpiredSignatureError

text \<open>The exception classes of the library: both other classes derive from \<open>JWTError\<close>.\<close>

fun isinstance :: "jose_error \<Rightarrow> jose_error \<Rightarrow> bool" where
  "isinstance e JWTError = True"
| "isinstance e c = (e = c)"

definition timegm :: "int \<Rightarrow> int" where
  "timegm t = t div 1000000"

definition timedelta_hours :: "int \<Rightarrow> int" where
  "timedelta_hours h = h * 3600 * 1000000"

text \<open>
  \<open>jwt.encode\<close>: the header names the algorithm, the payload is the claim set, the
  signature is the keyed hash of header and payload.
\<close>

definition jwt_encode :: "mac \<Rightarrow> claims \<Rightarrow> string \<Rightarrow> string \<Rightarrow> token_string" where
  "jwt_encode hmac cs key algorithm =
     Compact algorithm (Claims cs) (hmac key (algorithm, Claims cs))"

text \<open>
  \<open>jwt.decode\<close>: the algorithm must be an allowed one and the signature must be the
  keyed hash of header and payload, else \<open>JWTError\<close>; the payload must be a JSON object,
  else \<open>JWTError\<close>; an \<open>exp\<close> claim, when present, must be a number
  (\<open>JWTClaimsError\<close>) and must not lie before the current second
  (\<open>ExpiredSignatureError\<close>). The library's checks of further registered claims, which
  this program never issues, are not part of the model.
\<close>

definition validate_exp :: "int \<Rightarrow> claims \<Rightarrow> jose_error + claims" where
  "validate_exp now cs =
     (case map_of cs ''exp'' of
        None \<Rightarrow> Inr cs
      | Some (JStr s) \<Rightarrow> Inl JWTClaimsError
      | Some (JNum e) \<Rightarrow> if e < timegm now then Inl ExpiredSignatureError else Inr cs)"

fun jwt_decode :: "mac \<Rightarrow> int \<Rightarrow> token_string \<Rightarrow> string \<Rightarrow> string list \<Rightarrow> jose_error + claims" where
  "jwt_decode hmac now (Malformed s) key algorithms = Inl JWTError"
| "jwt_decode hmac now (Compact a p sg) key algorithms =
     (if a \<notin> set algorithms then Inl JWTError
      else if sg \<noteq> hmac key (a, p) then Inl JWTError
      else (case p of
              NotAnObject s \<Rightarrow> Inl JWTError
            | Claims cs \<Rightarrow> validate_exp now cs))"

text \<open>\<open>jwt.get_unverified_claims\<close>: the claim set of a token, nothing checked.\<close>

fun get_unverified_claims :: "token_string \<Rightarrow> jose_error + claims" where
  "get_unverified_claims (Compact a (Claims cs) sg) = Inr cs"
| "get_unverified_claims t = Inl JWTError"

subsection \<open>The module\<close>

datatype exn =
    HTTPException nat string
  | MultipleResultsFound
  | IntegrityError
  | Uncaught jose_error
  | KeyError string
  | TypeError
  | ValueError

definition JWT_ALGORITHM :: string where
  "JWT_ALGORITHM = ''HS256''"

definition encode :: "mac \<Rightarrow> string \<Rightarrow> int \<Rightarrow> string \<Rightarrow> token_string" where
  "encode hmac JWT_SECRET now email =
     jwt_encode hmac
       [(''sub'', JStr email), (''exp'', JNum (timegm (now + timedelta_hours 1)))]
       JWT_SECRET JWT_ALGORITHM"

definition Token_expirado :: exn where
  "Token_expirado = HTTPException 403 ''Token expirado.''"

definition Token_invalido :: exn where
  "Token_invalido =
     HTTPException 403
       (''Token inv'' @ [CHR 0xE2, CHR 0x88, CHR 0x9A, CHR 0xC2, CHR 0xB0] @ ''lido.'')"

definition validate_token :: "mac \<Rightarrow> string \<Rightarrow> int \<Rightarrow> token_string \<Rightarrow> exn + claims" where
  "validate_token hmac JWT_SECRET now credentials =
     (case jwt_decode hmac now credentials JWT_SECRET [JWT_ALGORITHM] of
        Inr cs \<Rightarrow> Inr cs
      | Inl exc \<Rightarrow>
          if isinstance exc ExpiredSignatureError then Inl Token_expirado
          else if isinstance exc JWTError then Inl Token_invalido
          else Inl (Uncaught exc))"


section \<open>Credential store and request handlers (db\_models.py, app\_models.py, app\_routes.py)\<close>

text \<open>
  The table \<open>users\<close>: a list of rows in insertion order. The primary key is assigned by
  the database on insertion. The column \<open>email\<close> is declared unique, the column
  \<open>nome\<close> is not.
\<close>

record User =
  user_id :: nat
  nome :: string
  email :: string
  senha :: string

type_synonym database = "User list"

record UserCreate =
  uc_nome :: string
  uc_email :: string
  uc_senha :: string

record UserLogin =
  ul_email :: string
  ul_senha :: string

record Token =
  jwt :: token_string

text \<open>
  The password hasher is the library's \<open>CryptContext\<close>: a salted hash, whose salt is
  drawn at random by the library and is an explicit argument here, and a verification
  function. Both are parameters of the model.
\<close>

record crypt_context =
  hash :: "string \<Rightarrow> string \<Rightarrow> string"
  verify :: "string \<Rightarrow> string \<Rightarrow> bool"

text \<open>\<open>scalar_one_or_none\<close> of a query result: no row, the single row, or an exception.\<close>

fun scalar_one_or_none :: "'a list \<Rightarrow> exn + 'a option" where
  "scalar_one_or_none [] = Inr None"
| "scalar_one_or_none [x] = Inr (Some x)"
| "scalar_one_or_none (x # y # zs) = Inl MultipleResultsFound"

text \<open>
  \<open>db.add\<close> followed by \<open>db.commit\<close>: the row is inserted unless the unique constraint
  on \<open>email\<close> rejects it.
\<close>

definition commit_add :: "database \<Rightarrow> string \<Rightarrow> string \<Rightarrow> string \<Rightarrow> exn + database" where
  "commit_add db n e s =
     (if \<exists>u \<in> set db. email u = e then Inl IntegrityError
      else Inr (db @ [\<lparr>user_id = Suc (length db), nome = n, email = e, senha = s\<rparr>]))"

definition Email_ja_registrado :: exn where
  "Email_ja_registrado =
     HTTPException 400 (''Email j'' @ [CHR 0xC3, CHR 0xA1] @ '' registrado'')"

definition Nome_indisponivel :: exn where
  "Nome_indisponivel =
     HTTPException 400 (''Nome indispon'' @ [CHR 0xC3, CHR 0xAD] @ ''vel'')"

definition Credenciais_invalidas :: exn where
  "Credenciais_invalidas =
     HTTPException 401 (''Credenciais inv'' @ [CHR 0xC3, CHR 0xA1] @ ''lidas'')"

text \<open>
  A handler takes the database and returns its response, or the exception it raises,
  together with the database it leaves behind.
\<close>

definition registrar ::
  "crypt_context \<Rightarrow> mac \<Rightarrow> string \<Rightarrow> string \<Rightarrow> int \<Rightarrow> UserCreate \<Rightarrow> database
     \<Rightarrow> (exn + Token) \<times> database" where
  "registrar PWD_CRYPT hmac JWT_SECRET salt now user db =
     (case scalar_one_or_none (filter (\<lambda>u. email u = uc_email user) db) of
        Inl exc \<Rightarrow> (Inl exc, db)
      | Inr (Some found) \<Rightarrow> (Inl Email_ja_registrado, db)
      | Inr None \<Rightarrow>
          (case scalar_one_or_none (filter (\<lambda>u. nome u = uc_nome user) db) of
             Inl exc \<Rightarrow> (Inl exc, db)
           | Inr (Some found) \<Rightarrow> (Inl Nome_indisponivel, db)
           | Inr None \<Rightarrow>
               (case commit_add db (uc_nome user) (uc_email user)
                       (hash PWD_CRYPT salt (uc_senha user)) of
                  Inl exc \<Rightarrow> (Inl exc, db)
                | Inr db' \<Rightarrow>
                    (Inr \<lparr>jwt = encode hmac JWT_SECRET now (uc_email user)\<rparr>, db'))))"

definition login ::
  "crypt_context \<Rightarrow> mac \<Rightarrow> string \<Rightarrow> int \<Rightarrow> UserLogin \<Rightarrow> database \<Rightarrow> exn + Token" where
  "login PWD_CRYPT hmac JWT_SECRET now user db =
     (case scalar_one_or_none (filter (\<lambda>u. email u = ul_email user) db) of
        Inl exc \<Rightarrow> Inl exc
      | Inr None \<Rightarrow> Inl Credenciais_invalidas
      | Inr (Some db_user) \<Rightarrow>
          if \<not> verify PWD_CRYPT (ul_senha user) (senha db_user)
          then Inl Credenciais_invalidas
          else Inr \<lparr>jwt = encode hmac JWT_SECRET now (ul_email user)\<rparr>)"

subsection \<open>Requests in flight together\<close>

text \<open>
  The handlers are coroutines: \<open>registrar\<close> gives control back to the server at each
  \<open>await\<close>, that is at its two queries and at its commit, and the server may run another
  request in between. Each request has a database session of its own, reads the rows
  committed so far and holds its new row until its commit. A task is a request together
  with the point it has reached; a step runs a task up to its next \<open>await\<close>.
\<close>

datatype registrar_pc = SelectEmail | SelectNome | AddCommit | Returned "exn + Token"

record task =
  t_user :: UserCreate
  t_salt :: string
  t_now :: int
  t_pc :: registrar_pc

definition registrar_step ::
  "crypt_context \<Rightarrow> mac \<Rightarrow> string \<Rightarrow> task \<Rightarrow> database \<Rightarrow> task \<times> database" where
  "registrar_step PWD_CRYPT hmac JWT_SECRET t db =
     (case t_pc t of
        SelectEmail \<Rightarrow>
          (case scalar_one_or_none (filter (\<lambda>u. email u = uc_email (t_user t)) db) of
             Inl exc \<Rightarrow> (t\<lparr>t_pc := Returned (Inl exc)\<rparr>, db)
           | Inr (Some found) \<Rightarrow> (t\<lparr>t_pc := Returned (Inl Email_ja_registrado)\<rparr>, db)
           | Inr None \<Rightarrow> (t\<lparr>t_pc := SelectNome\<rparr>, db))
      | SelectNome \<Rightarrow>
          (case scalar_one_or_none (filter (\<lambda>u. nome u = uc_nome (t_user t)) db) of
             Inl exc \<Rightarrow> (t\<lparr>t_pc := Returned (Inl exc)\<rparr>, db)
           | Inr (Some found) \<Rightarrow> (t\<lparr>t_pc := Returned (Inl Nome_indisponivel)\<rparr>, db)
           | Inr None \<Rightarrow> (t\<lparr>t_pc := AddCommit\<rparr>, db))
      | AddCommit \<Rightarrow>
          (case commit_add db (uc_nome (t_user t)) (uc_email (t_user t))
                  (hash PWD_CRYPT (t_salt t) (uc_senha (t_user t))) of
             Inl exc \<Rightarrow> (t\<lparr>t_pc := Returned (Inl exc)\<rparr>, db)
           | Inr db' \<Rightarrow>
               (t\<lparr>t_pc := Returned
                    (Inr \<lparr>jwt = encode hmac JWT_SECRET (t_now t) (uc_email (t_user t))\<rparr>)\<rparr>,
                db'))
      | Returned r \<Rightarrow> (t, db))"

text \<open>
  The server runs the tasks in some order: a schedule names, step by step, the task that
  runs next.
\<close>

fun run ::
  "crypt_context \<Rightarrow> mac \<Rightarrow> string \<Rightarrow> nat list \<Rightarrow> task list \<times> database
     \<Rightarrow> task list \<times> database" where
  "run PWD_CRYPT hmac JWT_SECRET [] (ts, db) = (ts, db)"
| "run PWD_CRYPT hmac JWT_SECRET (i # sched) (ts, db) =
     (if i < length ts
      then (case registrar_step PWD_CRYPT hmac JWT_SECRET (ts ! i) db of
              (t', db') \<Rightarrow> run PWD_CRYPT hmac JWT_SECRET sched (ts[i := t'], db'))
      else run PWD_CRYPT hmac JWT_SECRET sched (ts, db))"

definition request :: "UserCreate \<Rightarrow> string \<Rightarrow> int \<Rightarrow> task" where
  "request user salt now = \<lparr>t_user = user, t_salt = salt, t_now = now, t_pc = SelectEmail\<rparr>"

text \<open>
  The stores that requests running one after the other can produce, from the empty table.
  Only \<open>registrar\<close> writes; \<open>login\<close> and the other handlers leave the store as it is.
\<close>

inductive reachable :: "crypt_context \<Rightarrow> mac \<Rightarrow> string \<Rightarrow> database \<Rightarrow> bool"
  for PWD_CRYPT hmac JWT_SECRET where
  initial: "reachable PWD_CRYPT hmac JWT_SECRET []"
| after_registrar:
    "reachable PWD_CRYPT hmac JWT_SECRET db \<Longrightarrow>
       reachable PWD_CRYPT hmac JWT_SECRET
         (snd (registrar PWD_CRYPT hmac JWT_SECRET salt now user db))"

section \<open>Data aggregation (grepolis\_data.py)\<close>

text \<open>
  The aggregation is written against a data-frame library. The model keeps what the
  program uses of it: a frame is a list of column labels and a list of rows, each row a
  list of cells in column order. A cell is a number, a string or the missing value.
  Numbers are integers: the library stores a numeric column with missing values in
  floating point, which is exact on the feeds' counts and identifiers.
\<close>

datatype cell = I int | S string | NaN

record DataFrame =
  columns :: "string list"
  rows :: "cell list list"

fun get_loc :: "string list \<Rightarrow> string \<Rightarrow> nat option" where
  "get_loc [] c = None"
| "get_loc (x # xs) c = (if x = c then Some 0 else map_option Suc (get_loc xs c))"

subsection \<open>Decoding of names\<close>

text \<open>
  \<open>unquote_plus\<close> of the URL library, on byte strings: every \<open>+\<close> becomes a space,
  then every \<open>%\<close> followed by two hexadecimal digits becomes the byte they denote; any
  other \<open>%\<close> stays. (The library then reads the bytes as UTF-8 and replaces invalid
  sequences, which is not modelled.)
\<close>

definition hexdigit :: "char \<Rightarrow> nat option" where
  "hexdigit c =
     (case get_loc (map (\<lambda>x. [x]) ''0123456789abcdef'') [c] of
        Some n \<Rightarrow> Some n
      | None \<Rightarrow> get_loc (map (\<lambda>x. [x]) ''0123456789ABCDEF'') [c])"

fun unquote :: "string \<Rightarrow> string" where
  "unquote (c # h1 # h2 # cs) =
     (if c = CHR ''%'' then
        (case (hexdigit h1, hexdigit h2) of
           (Some a, Some b) \<Rightarrow> char_of (16 * a + b) # unquote cs
         | _ \<Rightarrow> c # unquote (h1 # h2 # cs))
      else c # unquote (h1 # h2 # cs))"
| "unquote cs = cs"

definition unquote_plus :: "string \<Rightarrow> string" where
  "unquote_plus s = unquote (map (\<lambda>c. if c = CHR ''+'' then CHR '' '' else c) s)"

subsection \<open>The operations of the library the program calls\<close>

text \<open>\<open>df[label]\<close> and \<open>df[label] = values\<close> on an existing column.\<close>

definition get_column :: "DataFrame \<Rightarrow> string \<Rightarrow> exn + cell list" where
  "get_column df label =
     (case get_loc (columns df) label of
        None \<Rightarrow> Inl (KeyError label)
      | Some i \<Rightarrow> Inr (map (\<lambda>r. r ! i) (rows df)))"

definition set_column :: "DataFrame \<Rightarrow> string \<Rightarrow> cell list \<Rightarrow> DataFrame" where
  "set_column df label values =
     (case get_loc (columns df) label of
        None \<Rightarrow> \<lparr>columns = columns df @ [label],
                  rows = map (\<lambda>(r, v). r @ [v]) (zip (rows df) values)\<rparr>
      | Some i \<Rightarrow> df\<lparr>rows := map (\<lambda>(r, v). r[i := v]) (zip (rows df) values)\<rparr>)"

text \<open>\<open>Series.apply(unquote_plus)\<close>: the function takes a string.\<close>

fun apply_unquote_plus :: "cell list \<Rightarrow> exn + cell list" where
  "apply_unquote_plus [] = Inr []"
| "apply_unquote_plus (S s # vs) =
     (case apply_unquote_plus vs of
        Inl exc \<Rightarrow> Inl exc
      | Inr ws \<Rightarrow> Inr (S (unquote_plus s) # ws))"
| "apply_unquote_plus (v # vs) = Inl TypeError"

definition fillna :: "cell list \<Rightarrow> int \<Rightarrow> cell list" where
  "fillna vs d = map (\<lambda>v. case v of NaN \<Rightarrow> I d | _ \<Rightarrow> v) vs"

fun astype_int :: "cell list \<Rightarrow> exn + cell list" where
  "astype_int [] = Inr []"
| "astype_int (I i # vs) =
     (case astype_int vs of Inl exc \<Rightarrow> Inl exc | Inr ws \<Rightarrow> Inr (I i # ws))"
| "astype_int (v # vs) = Inl ValueError"

definition rename :: "DataFrame \<Rightarrow> (string \<times> string) list \<Rightarrow> DataFrame" where
  "rename df mapper =
     df\<lparr>columns := map (\<lambda>c. case map_of mapper c of None \<Rightarrow> c | Some d \<Rightarrow> d) (columns df)\<rparr>"

text \<open>
  \<open>merge\<close> with \<open>how="left"\<close>: every row of the left frame, in order, joined with every
  row of the right frame whose key equals its key, or with missing values when there is
  none. A label that both frames carry takes the suffix of its side.
\<close>

definition join_row :: "nat \<Rightarrow> nat \<Rightarrow> DataFrame \<Rightarrow> cell list \<Rightarrow> cell list list" where
  "join_row li ri right l =
     (case filter (\<lambda>r. r ! ri = l ! li) (rows right) of
        [] \<Rightarrow> [l @ replicate (length (columns right)) NaN]
      | m # ms \<Rightarrow> map (\<lambda>r. l @ r) (m # ms))"

definition merge ::
  "DataFrame \<Rightarrow> DataFrame \<Rightarrow> string \<Rightarrow> string \<Rightarrow> string \<times> string \<Rightarrow> exn + DataFrame" where
  "merge left right left_on right_on suffixes =
     (case get_loc (columns left) left_on of
        None \<Rightarrow> Inl (KeyError left_on)
      | Some li \<Rightarrow>
          (case get_loc (columns right) right_on of
             None \<Rightarrow> Inl (KeyError right_on)
           | Some ri \<Rightarrow>
               Inr \<lparr>columns =
                      map (\<lambda>c. if c \<in> set (columns right) then c @ fst suffixes else c)
                        (columns left) @
                      map (\<lambda>c. if c \<in> set (columns left) then c @ snd suffixes else c)
                        (columns right),
                    rows = concat (map (join_row li ri right) (rows left))\<rparr>))"

text \<open>\<open>drop(columns=labels)\<close>: every label must be a column.\<close>

definition drop_columns :: "DataFrame \<Rightarrow> string list \<Rightarrow> exn + DataFrame" where
  "drop_columns df labels =
     (case filter (\<lambda>c. c \<notin> set (columns df)) labels of
        c # cs \<Rightarrow> Inl (KeyError c)
      | [] \<Rightarrow>
          (let keep = filter (\<lambda>i. columns df ! i \<notin> set labels) [0..<length (columns df)]
           in Inr \<lparr>columns = map (\<lambda>i. columns df ! i) keep,
                   rows = map (\<lambda>r. map (\<lambda>i. r ! i) keep) (rows df)\<rparr>))"

text \<open>
  \<open>sort_values(by=label)\<close>: ascending, missing values last. Rows with equal keys keep
  their order here; the library does not say in which order it leaves them. Numbers and
  strings in one column cannot be compared.
\<close>

fun sort_key_of :: "cell \<Rightarrow> nat \<times> int \<times> string" where
  "sort_key_of (I i) = (0, i, [])"
| "sort_key_of (S s) = (0, 0, s)"
| "sort_key_of NaN = (1, 0, [])"

fun is_number :: "cell \<Rightarrow> bool" where
  "is_number (I i) = True"
| "is_number v = False"

fun is_string :: "cell \<Rightarrow> bool" where
  "is_string (S s) = True"
| "is_string v = False"

definition sort_values :: "DataFrame \<Rightarrow> string \<Rightarrow> exn + DataFrame" where
  "sort_values df by =
     (case get_loc (columns df) by of
        None \<Rightarrow> Inl (KeyError by)
      | Some i \<Rightarrow>
          if list_ex (\<lambda>r. is_string (r ! i)) (rows df) \<and>
             list_ex (\<lambda>r. is_number (r ! i)) (rows df)
          then Inl TypeError
          else Inr (df\<lparr>rows := sort_key (\<lambda>r. sort_key_of (r ! i)) (rows df)\<rparr>))"

subsection \<open>The module\<close>

text \<open>
  The feeds are given as the lines \<open>read_csv\<close> has parsed under the column types of the
  program: a line of the players' feed and a line of one of the three kills feeds. An
  empty alliance field is the missing value.
\<close>

record player_line =
  pl_id :: int
  pl_name :: string
  pl_alliance_id :: "int option"
  pl_points :: int
  pl_rank :: int
  pl_towns :: int

record kills_line =
  kl_rank :: int
  kl_player_id :: int
  kl_points :: int

definition player_cells :: "player_line \<Rightarrow> cell list" where
  "player_cells l =
     [I (pl_id l), S (pl_name l),
      (case pl_alliance_id l of None \<Rightarrow> NaN | Some a \<Rightarrow> I a),
      I (pl_points l), I (pl_rank l), I (pl_towns l)]"

definition kills_cells :: "kills_line \<Rightarrow> cell list" where
  "kills_cells l = [I (kl_rank l), I (kl_player_id l), I (kl_points l)]"

definition COMBAT_COLUMNS :: "string list" where
  "COMBAT_COLUMNS = [''rank'', ''player_id'', ''points'']"

definition read_data :: "cell list list \<Rightarrow> string list \<Rightarrow> DataFrame" where
  "read_data lines names = \<lparr>columns = names, rows = lines\<rparr>"

definition player_data :: "player_line list \<Rightarrow> exn + DataFrame" where
  "player_data feed =
     (let data = read_data (map player_cells feed)
                   [''id'', ''name'', ''alliance_id'', ''points'', ''rank'', ''towns'']
      in case get_column data ''name'' of
           Inl exc \<Rightarrow> Inl exc
         | Inr names \<Rightarrow>
             (case apply_unquote_plus names of
                Inl exc \<Rightarrow> Inl exc
              | Inr decoded \<Rightarrow>
                  (let data = set_column data ''name'' decoded
                   in case get_column data ''alliance_id'' of
                        Inl exc \<Rightarrow> Inl exc
                      | Inr ids \<Rightarrow>
                          (case astype_int (fillna ids (- 1)) of
                             Inl exc \<Rightarrow> Inl exc
                           | Inr ints \<Rightarrow> Inr (set_column data ''alliance_id'' ints)))))"

definition player_combat_data :: "kills_line list \<Rightarrow> DataFrame" where
  "player_combat_data feed =
     rename (read_data (map kills_cells feed) COMBAT_COLUMNS)
       [(''rank'', ''combat_rank''), (''points'', ''combat_points'')]"

definition player_attack_data :: "kills_line list \<Rightarrow> DataFrame" where
  "player_attack_data feed =
     rename (read_data (map kills_cells feed) COMBAT_COLUMNS)
       [(''rank'', ''attack_rank''), (''points'', ''attack_points'')]"

definition player_defense_data :: "kills_line list \<Rightarrow> DataFrame" where
  "player_defense_data feed =
     rename (read_data (map kills_cells feed) COMBAT_COLUMNS)
       [(''rank'', ''defense_rank''), (''points'', ''defense_points'')]"

definition bind :: "exn + 'a \<Rightarrow> ('a \<Rightarrow> exn + 'b) \<Rightarrow> exn + 'b" where
  "bind m f = (case m of Inl exc \<Rightarrow> Inl exc | Inr x \<Rightarrow> f x)"

definition get_players_data ::
  "player_line list \<Rightarrow> kills_line list \<Rightarrow> kills_line list \<Rightarrow> kills_line list
     \<Rightarrow> exn + DataFrame" where
  "get_players_data players kills_all kills_att kills_def =
     bind (player_data players) (\<lambda>d0.
     bind (merge d0 (player_combat_data kills_all) ''id'' ''player_id'' (''_x'', ''_y'')) (\<lambda>d1.
     bind (merge d1 (player_attack_data kills_att) ''id'' ''player_id'' ('''', ''_atk'')) (\<lambda>d2.
     bind (merge d2 (player_defense_data kills_def) ''id'' ''player_id'' ('''', ''_def'')) (\<lambda>d3.
     bind (drop_columns d3 [''player_id'', ''player_id_atk'', ''player_id_def'']) (\<lambda>d4.
     sort_values d4 ''rank'')))))"

subsection \<open>Notation for the result\<close>

text \<open>
  Three abbreviations to state what the aggregation returns: the cells of a player after
  decoding, the rows after the three merges, and the cells of a merged row at the
  positions that \<open>drop\<close> keeps.
\<close>

abbreviation decoded_cells :: "player_line \<Rightarrow> cell list" where
  "decoded_cells p \<equiv>
     [I (pl_id p), S (unquote_plus (pl_name p)),
      I (case pl_alliance_id p of None \<Rightarrow> - 1 | Some a \<Rightarrow> a),
      I (pl_points p), I (pl_rank p), I (pl_towns p)]"

abbreviation joined ::
  "player_line list \<Rightarrow> kills_line list \<Rightarrow> kills_line list \<Rightarrow> kills_line list \<Rightarrow> cell list list" where
  "joined players kills_all kills_att kills_def \<equiv>
     concat (map (join_row 0 1 (player_defense_data kills_def))
       (concat (map (join_row 0 1 (player_attack_data kills_att))
         (concat (map (join_row 0 1 (player_combat_data kills_all))
           (map decoded_cells players))))))"

abbreviation kept :: "cell list \<Rightarrow> cell list" where
  "kept r \<equiv> map (\<lambda>i. r ! i) [0, 1, 2, 3, 4, 5, 6, 8, 9, 11, 12, 14]"

section \<open>Sample parameters\<close>

text \<open>
  A keyed hash and a password hasher to run the model on concrete inputs. The sample
  hasher uses salts of two characters.
\<close>

definition sample_hmac :: mac where
  "sample_hmac key m =
     key @ ''/'' @ fst m @ ''/'' @
       (case snd m of Claims cs \<Rightarrow> concat (map fst cs) | NotAnObject s \<Rightarrow> s)"

definition sample_crypt :: crypt_context where
  "sample_crypt =
     \<lparr>hash = (\<lambda>salt secret. ''$6$'' @ salt @ ''$'' @ rev secret),
      verify = (\<lambda>secret h. take 3 h = ''$6$'' \<and> drop 6 h = rev secret)\<rparr>"

section \<open>Properties of the token service\<close>

lemma timegm_hour: "timegm (now + timedelta_hours 1) = timegm now + 3600"
proof -
  have "(now + 3600 * 1000000) div 1000000 = 3600 + now div (1000000::int)"
    by (rule div_mult_self1) simp
  then show ?thesis
    by (simp add: timegm_def timedelta_hours_def)
qed

lemma encode_eq:
  "encode hmac secret now e =
     Compact ''HS256'' (Claims [(''sub'', JStr e), (''exp'', JNum (timegm now + 3600))])
       (hmac secret (''HS256'',
          Claims [(''sub'', JStr e), (''exp'', JNum (timegm now + 3600))]))"
  by (simp add: encode_def jwt_encode_def timegm_hour JWT_ALGORITHM_def)

text \<open>
  C9: \<open>encode\<close> builds exactly the claim set with the subject and the expiry one hour
  after the current second, under the fixed algorithm, and nothing else enters the
  token: two calls for the same subject within the same second return the same token.
\<close>

theorem encode_deterministic:
  "timegm now1 = timegm now2 \<Longrightarrow>
     encode hmac secret now1 e = encode hmac secret now2 e \<and>
     get_unverified_claims (encode hmac secret now1 e) =
       Inr [(''sub'', JStr e), (''exp'', JNum (timegm now1 + 3600))] \<and>
     encode hmac secret now1 e =
       jwt_encode hmac [(''sub'', JStr e), (''exp'', JNum (timegm now1 + 3600))]
         secret ''HS256''"
  by (simp add: encode_eq jwt_encode_def)

theorem encode_deterministic_witness:
  "timegm 1700000000000001 = timegm 1700000000999999 \<and>
   encode sample_hmac ''k'' 1700000000000001 ''a@b.c'' =
     encode sample_hmac ''k'' 1700000000999999 ''a@b.c'' \<and>
   encode sample_hmac ''k'' 1700000000000001 ''a@b.c'' =
     Compact ''HS256'' (Claims [(''sub'', JStr ''a@b.c''), (''exp'', JNum 1700003600)])
       ''k/HS256/subexp''"
proof -
  have h: "timegm 1700000000000001 = timegm 1700000000999999"
    by (simp add: timegm_def)
  show ?thesis
    using h encode_deterministic [OF h, of sample_hmac "''k''" "''a@b.c''"]
    by (simp add: encode_eq timegm_def sample_hmac_def)
qed



lemma validate_fresh:
  "timegm now' \<le> timegm now + 3600 \<Longrightarrow>
     validate_token h k now' (encode h k now e) =
       Inr [(''sub'', JStr e), (''exp'', JNum (timegm now + 3600))]"
  by (simp add: encode_eq validate_token_def validate_exp_def JWT_ALGORITHM_def)



section \<open>Properties of the request handlers\<close>

lemma scalar_none: "\<forall>x \<in> set xs. \<not> P x \<Longrightarrow> scalar_one_or_none (filter P xs) = Inr None"
  by (simp add: filter_empty_conv[THEN iffD2])

lemma distinct_filter_key:
  "distinct (map f xs) \<Longrightarrow> x \<in> set xs \<Longrightarrow> filter (\<lambda>u. f u = f x) xs = [x]"
proof (induction xs)
  case Nil
  then show ?case by simp
next
  case (Cons y ys)
  show ?case
  proof (cases "y = x")
    case True
    from Cons.prems True have "f x \<notin> f ` set ys" by simp
    then have "\<forall>u \<in> set ys. f u \<noteq> f x" by (metis imageI)
    then have "filter (\<lambda>u. f u = f x) ys = []" by (simp add: filter_empty_conv)
    with True show ?thesis by simp
  next
    case False
    with Cons.prems have "x \<in> set ys" "f y \<noteq> f x" "distinct (map f ys)" by auto
    with Cons.IH show ?thesis by simp
  qed
qed

lemma scalar_some:
  "distinct (map f xs) \<Longrightarrow> x \<in> set xs \<Longrightarrow>
     scalar_one_or_none (filter (\<lambda>u. f u = f x) xs) = Inr (Some x)"
  by (simp add: distinct_filter_key)

lemma scalar_not_none:
  assumes "x \<in> set xs" and "P x"
  shows "scalar_one_or_none (filter P xs) \<noteq> Inr None"
proof -
  from assms have "filter P xs \<noteq> []" by (auto simp: filter_empty_conv)
  then show ?thesis by (cases "filter P xs" rule: scalar_one_or_none.cases) auto
qed

lemma registrar_fresh:
  assumes "\<forall>u \<in> set db. email u \<noteq> uc_email user"
      and "\<forall>u \<in> set db. nome u \<noteq> uc_nome user"
  shows "registrar C h k salt now user db =
           (Inr \<lparr>jwt = encode h k now (uc_email user)\<rparr>,
            db @ [\<lparr>user_id = Suc (length db), nome = uc_nome user, email = uc_email user,
                   senha = hash C salt (uc_senha user)\<rparr>])"
proof -
  have e: "scalar_one_or_none (filter (\<lambda>u. email u = uc_email user) db) = Inr None"
    using assms(1) by (rule scalar_none)
  have n: "scalar_one_or_none (filter (\<lambda>u. nome u = uc_nome user) db) = Inr None"
    using assms(2) by (rule scalar_none)
  have c: "commit_add db (uc_nome user) (uc_email user) (hash C salt (uc_senha user)) =
      Inr (db @ [\<lparr>user_id = Suc (length db), nome = uc_nome user, email = uc_email user,
                  senha = hash C salt (uc_senha user)\<rparr>])"
    using assms(1) by (simp add: commit_add_def)
  show ?thesis
    by (simp add: registrar_def e n c)
qed

text \<open>
  C1: when no row of the store has the email or the name of the request, \<open>registrar\<close>
  returns a token, and \<open>validate_token\<close> at any time up to the expiry of that token
  returns a claim set whose subject is the registered email.
\<close>

theorem registrar_roundtrip:
  assumes "\<forall>u \<in> set db. email u \<noteq> uc_email user"
      and "\<forall>u \<in> set db. nome u \<noteq> uc_nome user"
  shows "\<exists>tok db'. registrar C h k salt now user db = (Inr tok, db') \<and>
           (\<forall>now'. timegm now' \<le> timegm now + 3600 \<longrightarrow>
              (\<exists>cs. validate_token h k now' (jwt tok) = Inr cs \<and>
                    map_of cs ''sub'' = Some (JStr (uc_email user))))"
  by (simp add: registrar_fresh [OF assms] validate_fresh)

theorem registrar_roundtrip_witness:
  "\<exists>tok db'.
     registrar sample_crypt sample_hmac ''k'' ''ab'' 1700000000000000
       \<lparr>uc_nome = ''bia'', uc_email = ''bia@x.org'', uc_senha = ''pw''\<rparr>
       [\<lparr>user_id = 1, nome = ''ana'', email = ''ana@x.org'', senha = ''$6$cd$1wp''\<rparr>] =
       (Inr tok, db') \<and>
     (\<exists>cs. validate_token sample_hmac ''k'' 1700003600999999 (jwt tok) = Inr cs \<and>
           map_of cs ''sub'' = Some (JStr ''bia@x.org''))"
proof -
  have "\<exists>tok db'.
     registrar sample_crypt sample_hmac ''k'' ''ab'' 1700000000000000
       \<lparr>uc_nome = ''bia'', uc_email = ''bia@x.org'', uc_senha = ''pw''\<rparr>
       [\<lparr>user_id = 1, nome = ''ana'', email = ''ana@x.org'', senha = ''$6$cd$1wp''\<rparr>] =
       (Inr tok, db') \<and>
     (\<forall>now'. timegm now' \<le> timegm 1700000000000000 + 3600 \<longrightarrow>
        (\<exists>cs. validate_token sample_hmac ''k'' now' (jwt tok) = Inr cs \<and>
              map_of cs ''sub'' = Some (JStr ''bia@x.org'')))"
    using registrar_roundtrip [of
      "[\<lparr>user_id = 1, nome = ''ana'', email = ''ana@x.org'', senha = ''$6$cd$1wp''\<rparr>]"
      "\<lparr>uc_nome = ''bia'', uc_email = ''bia@x.org'', uc_senha = ''pw''\<rparr>"
      sample_crypt sample_hmac "''k''" "''ab''" 1700000000000000]
    by simp
  then obtain tok db' where
    r: "registrar sample_crypt sample_hmac ''k'' ''ab'' 1700000000000000
       \<lparr>uc_nome = ''bia'', uc_email = ''bia@x.org'', uc_senha = ''pw''\<rparr>
       [\<lparr>user_id = 1, nome = ''ana'', email = ''ana@x.org'', senha = ''$6$cd$1wp''\<rparr>] =
       (Inr tok, db')" and
    v: "\<And>now'. timegm now' \<le> timegm 1700000000000000 + 3600 \<Longrightarrow>
        \<exists>cs. validate_token sample_hmac ''k'' now' (jwt tok) = Inr cs \<and>
              map_of cs ''sub'' = Some (JStr ''bia@x.org'')"
    by blast
  have "timegm 1700003600999999 \<le> timegm 1700000000000000 + 3600"
    by (simp add: timegm_def)
  from v [OF this] r show ?thesis
    by blast
qed

text \<open>
  C3: in a store that respects the unique constraint of the column \<open>email\<close>, a request
  whose email is that of a row is refused with "email already registered", whatever its
  name; "name unavailable" is raised only for an email that no row has. The two errors
  differ.
\<close>

theorem registrar_email_first:
  "(distinct (map email db) \<and> (\<exists>u \<in> set db. email u = uc_email user) \<longrightarrow>
      registrar C h k salt now user db = (Inl Email_ja_registrado, db)) \<and>
   (fst (registrar C h k salt now user db) = Inl Nome_indisponivel \<longrightarrow>
      (\<forall>u \<in> set db. email u \<noteq> uc_email user)) \<and>
   Email_ja_registrado \<noteq> Nome_indisponivel"
proof (intro conjI impI)
  assume a: "distinct (map email db) \<and> (\<exists>u \<in> set db. email u = uc_email user)"
  then obtain x where x: "x \<in> set db" "email x = uc_email user" by auto
  from a x(1) have "scalar_one_or_none (filter (\<lambda>u. email u = email x) db) = Inr (Some x)"
    by (simp add: scalar_some)
  then show "registrar C h k salt now user db = (Inl Email_ja_registrado, db)"
    by (simp add: registrar_def x(2))
next
  assume f: "fst (registrar C h k salt now user db) = Inl Nome_indisponivel"
  have ne: "Nome_indisponivel \<noteq> Email_ja_registrado" "Nome_indisponivel \<noteq> MultipleResultsFound"
    by (simp_all add: Nome_indisponivel_def Email_ja_registrado_def)
  show "\<forall>u \<in> set db. email u \<noteq> uc_email user"
  proof (rule ccontr)
    assume "\<not> (\<forall>u \<in> set db. email u \<noteq> uc_email user)"
    then obtain x where x: "x \<in> set db" "email x = uc_email user" by auto
    then have "scalar_one_or_none (filter (\<lambda>u. email u = uc_email user) db) \<noteq> Inr None"
      by (intro scalar_not_none[of x]) auto
    with f ne show False
      by (cases "filter (\<lambda>u. email u = uc_email user) db" rule: scalar_one_or_none.cases)
        (auto simp: registrar_def)
  qed
next
  show "Email_ja_registrado \<noteq> Nome_indisponivel"
    by (simp add: Nome_indisponivel_def Email_ja_registrado_def)
qed

theorem registrar_email_first_witness:
  "registrar sample_crypt sample_hmac ''k'' ''ab'' 1700000000000000
     \<lparr>uc_nome = ''ana'', uc_email = ''ana@x.org'', uc_senha = ''pw''\<rparr>
     [\<lparr>user_id = 1, nome = ''ana'', email = ''ana@x.org'', senha = ''$6$cd$1wp''\<rparr>] =
     (Inl Email_ja_registrado,
      [\<lparr>user_id = 1, nome = ''ana'', email = ''ana@x.org'', senha = ''$6$cd$1wp''\<rparr>]) \<and>
   registrar sample_crypt sample_hmac ''k'' ''ab'' 1700000000000000
     \<lparr>uc_nome = ''bia'', uc_email = ''ana@x.org'', uc_senha = ''pw''\<rparr>
     [\<lparr>user_id = 1, nome = ''ana'', email = ''ana@x.org'', senha = ''$6$cd$1wp''\<rparr>] =
     (Inl Email_ja_registrado,
      [\<lparr>user_id = 1, nome = ''ana'', email = ''ana@x.org'', senha = ''$6$cd$1wp''\<rparr>]) \<and>
   fst (registrar sample_crypt sample_hmac ''k'' ''ab'' 1700000000000000
     \<lparr>uc_nome = ''ana'', uc_email = ''bia@x.org'', uc_senha = ''pw''\<rparr>
     [\<lparr>user_id = 1, nome = ''ana'', email = ''ana@x.org'', senha = ''$6$cd$1wp''\<rparr>]) =
     Inl Nome_indisponivel"
  using
    registrar_email_first [of
      "[\<lparr>user_id = 1, nome = ''ana'', email = ''ana@x.org'', senha = ''$6$cd$1wp''\<rparr>]"
      "\<lparr>uc_nome = ''ana'', uc_email = ''ana@x.org'', uc_senha = ''pw''\<rparr>"
      sample_crypt sample_hmac "''k''" "''ab''" 1700000000000000]
    registrar_email_first [of
      "[\<lparr>user_id = 1, nome = ''ana'', email = ''ana@x.org'', senha = ''$6$cd$1wp''\<rparr>]"
      "\<lparr>uc_nome = ''bia'', uc_email = ''ana@x.org'', uc_senha = ''pw''\<rparr>"
      sample_crypt sample_hmac "''k''" "''ab''" 1700000000000000]
  by (simp add: registrar_def)

text \<open>
  C10: when \<open>registrar\<close> raises "email already registered" or "name unavailable", the
  store it leaves behind is the store it was given.
\<close>

theorem registrar_failure_no_write:
  "fst (registrar C h k salt now user db) = Inl Email_ja_registrado \<or>
   fst (registrar C h k salt now user db) = Inl Nome_indisponivel \<Longrightarrow>
     snd (registrar C h k salt now user db) = db"
  by (auto simp: registrar_def split: sum.splits option.splits)

theorem registrar_failure_no_write_witness:
  "fst (registrar sample_crypt sample_hmac ''k'' ''ab'' 1700000000000000
     \<lparr>uc_nome = ''ana'', uc_email = ''bia@x.org'', uc_senha = ''pw''\<rparr>
     [\<lparr>user_id = 1, nome = ''ana'', email = ''ana@x.org'', senha = ''$6$cd$1wp''\<rparr>]) =
     Inl Nome_indisponivel \<and>
   snd (registrar sample_crypt sample_hmac ''k'' ''ab'' 1700000000000000
     \<lparr>uc_nome = ''ana'', uc_email = ''bia@x.org'', uc_senha = ''pw''\<rparr>
     [\<lparr>user_id = 1, nome = ''ana'', email = ''ana@x.org'', senha = ''$6$cd$1wp''\<rparr>]) =
     [\<lparr>user_id = 1, nome = ''ana'', email = ''ana@x.org'', senha = ''$6$cd$1wp''\<rparr>]"
proof -
  have f: "fst (registrar sample_crypt sample_hmac ''k'' ''ab'' 1700000000000000
     \<lparr>uc_nome = ''ana'', uc_email = ''bia@x.org'', uc_senha = ''pw''\<rparr>
     [\<lparr>user_id = 1, nome = ''ana'', email = ''ana@x.org'', senha = ''$6$cd$1wp''\<rparr>]) =
     Inl Nome_indisponivel"
    by (simp add: registrar_def)
  from f registrar_failure_no_write [OF disjI2, OF f] show ?thesis
    by simp
qed

text \<open>
  C5: in a store that respects the unique constraint of the column \<open>email\<close>, \<open>login\<close>
  returns a token whose subject is the email of the request when a row has that email
  and the password verifies against the hash of that row. In every other case it raises
  one and the same error, for an unknown email as for a wrong password.
\<close>

theorem login_outcomes:
  assumes "distinct (map email db)"
  shows "if \<exists>u \<in> set db. email u = ul_email user \<and> verify C (ul_senha user) (senha u)
         then \<exists>tok cs. login C h k now user db = Inr tok \<and>
                get_unverified_claims (jwt tok) = Inr cs \<and>
                map_of cs ''sub'' = Some (JStr (ul_email user))
         else login C h k now user db = Inl Credenciais_invalidas"
proof (cases "\<exists>u \<in> set db. email u = ul_email user")
  case False
  then have "scalar_one_or_none (filter (\<lambda>u. email u = ul_email user) db) = Inr None"
    by (intro scalar_none) auto
  with False show ?thesis by (auto simp: login_def)
next
  case True
  then obtain x where x: "x \<in> set db" "email x = ul_email user" by auto
  from assms x(1)
  have s: "scalar_one_or_none (filter (\<lambda>u. email u = email x) db) = Inr (Some x)"
    by (simp add: scalar_some)
  have only: "\<And>u. u \<in> set db \<Longrightarrow> email u = ul_email user \<Longrightarrow> u = x"
    using assms x by (metis distinct_map inj_onD)
  show ?thesis
  proof (cases "verify C (ul_senha user) (senha x)")
    case True
    with x s show ?thesis
      by (auto simp: login_def encode_eq)
  next
    case False
    with only
    have "\<not> (\<exists>u \<in> set db. email u = ul_email user \<and> verify C (ul_senha user) (senha u))"
      by auto
    with False x s show ?thesis by (simp add: login_def)
  qed
qed

theorem login_outcomes_witness:
  "(\<exists>tok cs.
      login sample_crypt sample_hmac ''k'' 1700000000000000
        \<lparr>ul_email = ''ana@x.org'', ul_senha = ''pw1''\<rparr>
        [\<lparr>user_id = 1, nome = ''ana'', email = ''ana@x.org'', senha = ''$6$cd$1wp''\<rparr>] =
        Inr tok \<and>
      get_unverified_claims (jwt tok) = Inr cs \<and>
      map_of cs ''sub'' = Some (JStr ''ana@x.org'')) \<and>
   login sample_crypt sample_hmac ''k'' 1700000000000000
     \<lparr>ul_email = ''ana@x.org'', ul_senha = ''pw2''\<rparr>
     [\<lparr>user_id = 1, nome = ''ana'', email = ''ana@x.org'', senha = ''$6$cd$1wp''\<rparr>] =
     Inl Credenciais_invalidas \<and>
   login sample_crypt sample_hmac ''k'' 1700000000000000
     \<lparr>ul_email = ''bia@x.org'', ul_senha = ''pw1''\<rparr>
     [\<lparr>user_id = 1, nome = ''ana'', email = ''ana@x.org'', senha = ''$6$cd$1wp''\<rparr>] =
     Inl Credenciais_invalidas"
  using
    login_outcomes [of
      "[\<lparr>user_id = 1, nome = ''ana'', email = ''ana@x.org'', senha = ''$6$cd$1wp''\<rparr>]"
      "\<lparr>ul_email = ''ana@x.org'', ul_senha = ''pw1''\<rparr>"
      sample_crypt sample_hmac "''k''" 1700000000000000]
    login_outcomes [of
      "[\<lparr>user_id = 1, nome = ''ana'', email = ''ana@x.org'', senha = ''$6$cd$1wp''\<rparr>]"
      "\<lparr>ul_email = ''ana@x.org'', ul_senha = ''pw2''\<rparr>"
      sample_crypt sample_hmac "''k''" 1700000000000000]
    login_outcomes [of
      "[\<lparr>user_id = 1, nome = ''ana'', email = ''ana@x.org'', senha = ''$6$cd$1wp''\<rparr>]"
      "\<lparr>ul_email = ''bia@x.org'', ul_senha = ''pw1''\<rparr>"
      sample_crypt sample_hmac "''k''" 1700000000000000]
  by (simp add: sample_crypt_def)

section \<open>Properties of the credential store\<close>

lemma registrar_db_cases:
  "snd (registrar C h k salt now user db) = db \<or>
   ((\<forall>u \<in> set db. email u \<noteq> uc_email user) \<and> (\<forall>u \<in> set db. nome u \<noteq> uc_nome user) \<and>
    snd (registrar C h k salt now user db) =
      db @ [\<lparr>user_id = Suc (length db), nome = uc_nome user, email = uc_email user,
             senha = hash C salt (uc_senha user)\<rparr>])"
proof (cases "(\<forall>u \<in> set db. email u \<noteq> uc_email user) \<and> (\<forall>u \<in> set db. nome u \<noteq> uc_nome user)")
  case True
  then show ?thesis by (simp add: registrar_fresh)
next
  case False
  then consider x where "x \<in> set db" "email x = uc_email user"
    | x where "x \<in> set db" "nome x = uc_nome user" by blast
  then show ?thesis
  proof cases
    case 1
    then have "scalar_one_or_none (filter (\<lambda>u. email u = uc_email user) db) \<noteq> Inr None"
      by (intro scalar_not_none [of x]) auto
    then show ?thesis
      by (auto simp: registrar_def split: sum.splits option.splits)
  next
    case 2
    then have "scalar_one_or_none (filter (\<lambda>u. nome u = uc_nome user) db) \<noteq> Inr None"
      by (intro scalar_not_none [of x]) auto
    then show ?thesis
      by (auto simp: registrar_def split: sum.splits option.splits)
  qed
qed

lemma registrar_keeps_unique:
  assumes "distinct (map email db)" and "distinct (map nome db)"
  shows "distinct (map email (snd (registrar C h k salt now user db))) \<and>
         distinct (map nome (snd (registrar C h k salt now user db)))"
proof -
  let ?row = "\<lparr>user_id = Suc (length db), nome = uc_nome user, email = uc_email user,
      senha = hash C salt (uc_senha user)\<rparr>"
  from registrar_db_cases [of C h k salt now user db]
  consider "snd (registrar C h k salt now user db) = db"
    | "\<forall>u \<in> set db. email u \<noteq> uc_email user" "\<forall>u \<in> set db. nome u \<noteq> uc_nome user"
      "snd (registrar C h k salt now user db) = db @ [?row]"
    by blast
  then show ?thesis
  proof cases
    case 1
    with assms show ?thesis by simp
  next
    case 2
    from 2(1) have "uc_email user \<notin> email ` set db" by force
    moreover from 2(2) have "uc_nome user \<notin> nome ` set db" by force
    ultimately show ?thesis
      using assms by (simp add: 2(3))
  qed
qed

lemma registrar_keeps_hashed:
  assumes "\<forall>u \<in> set db. \<exists>s p. senha u = hash C s p"
  shows "\<forall>u \<in> set (snd (registrar C h k salt now user db)). \<exists>s p. senha u = hash C s p"
proof -
  let ?row = "\<lparr>user_id = Suc (length db), nome = uc_nome user, email = uc_email user,
      senha = hash C salt (uc_senha user)\<rparr>"
  from registrar_db_cases [of C h k salt now user db]
  consider "snd (registrar C h k salt now user db) = db"
    | "snd (registrar C h k salt now user db) = db @ [?row]"
    by blast
  then show ?thesis
  proof cases
    case 1
    with assms show ?thesis by simp
  next
    case 2
    have "\<exists>s p. senha ?row = hash C s p" by auto
    with assms show ?thesis
      unfolding 2 by simp
  qed
qed

text \<open>
  Requests that run one after the other keep the store well formed: no two rows share
  an email, no two rows share a name, and the password column of every row holds a value
  of the hasher. A successful registration appends exactly the row with the hash of the
  submitted password.
\<close>

theorem reachable_unique:
  assumes "reachable C h k db"
  shows "distinct (map email db) \<and> distinct (map nome db) \<and>
         (\<forall>u \<in> set db. \<exists>s p. senha u = hash C s p)"
  using assms
proof (induction rule: reachable.induct)
  case initial
  show ?case by simp
next
  case (after_registrar db salt now user)
  then show ?case
    using registrar_keeps_hashed [of db C h k salt now user]
    by (simp add: registrar_keeps_unique)
qed

theorem reachable_unique_witness:
  "reachable sample_crypt sample_hmac ''k''
     [\<lparr>user_id = 1, nome = ''ana'', email = ''ana@x.org'', senha = ''$6$ab$1wp''\<rparr>] \<and>
   distinct (map email
     [\<lparr>user_id = 1, nome = ''ana'', email = ''ana@x.org'', senha = ''$6$ab$1wp''\<rparr>]) \<and>
   distinct (map nome
     [\<lparr>user_id = 1, nome = ''ana'', email = ''ana@x.org'', senha = ''$6$ab$1wp''\<rparr>]) \<and>
   hash sample_crypt ''ab'' ''pw1'' = ''$6$ab$1wp''"
proof -
  have "reachable sample_crypt sample_hmac ''k''
      (snd (registrar sample_crypt sample_hmac ''k'' ''ab'' 1700000000000000
        \<lparr>uc_nome = ''ana'', uc_email = ''ana@x.org'', uc_senha = ''pw1''\<rparr> []))"
    by (rule reachable.after_registrar [OF reachable.initial])
  then have r: "reachable sample_crypt sample_hmac ''k''
      [\<lparr>user_id = 1, nome = ''ana'', email = ''ana@x.org'', senha = ''$6$ab$1wp''\<rparr>]"
    by (simp add: registrar_def commit_add_def sample_crypt_def)
  from r reachable_unique [OF r] show ?thesis
    by (simp add: sample_crypt_def)
qed

lemma commit_add_email_unique:
  "distinct (map email db) \<Longrightarrow> commit_add db n e s = Inr db' \<Longrightarrow> distinct (map email db')"
  by (auto simp: commit_add_def split: if_splits)

lemma registrar_step_email_unique:
  assumes "distinct (map email db)"
  shows "distinct (map email (snd (registrar_step C h k t db)))"
  using assms
  by (auto simp: registrar_step_def commit_add_def
      split: registrar_pc.splits sum.splits option.splits if_splits)

text \<open>
  Whatever the order in which the server runs the steps of any number of registrations,
  no two rows of the store share an email: the unique constraint of the column rejects
  the second commit.
\<close>

theorem run_email_unique:
  "distinct (map email db) \<Longrightarrow> distinct (map email (snd (run C h k sched (ts, db))))"
proof (induction sched arbitrary: ts db)
  case Nil
  then show ?case by simp
next
  case (Cons i sched)
  show ?case
  proof (cases "i < length ts")
    case False
    with Cons show ?thesis by simp
  next
    case True
    obtain t' db' where s: "registrar_step C h k (ts ! i) db = (t', db')"
      by (cases "registrar_step C h k (ts ! i) db")
    with registrar_step_email_unique [OF Cons.prems, of C h k "ts ! i"]
    have "distinct (map email db')" by simp
    from Cons.IH [OF this] True s show ?thesis by simp
  qed
qed

theorem run_email_unique_witness:
  "distinct (map email ([] :: database)) \<and>
   snd (run sample_crypt sample_hmac ''k'' [0, 1, 0, 1, 0, 1]
     ([request \<lparr>uc_nome = ''ana'', uc_email = ''ana@x.org'', uc_senha = ''pw1''\<rparr> ''ab''
         1700000000000000,
       request \<lparr>uc_nome = ''bia'', uc_email = ''ana@x.org'', uc_senha = ''pw2''\<rparr> ''cd''
         1700000000000001], [])) =
     [\<lparr>user_id = 1, nome = ''ana'', email = ''ana@x.org'', senha = ''$6$ab$1wp''\<rparr>] \<and>
   map t_pc (fst (run sample_crypt sample_hmac ''k'' [0, 1, 0, 1, 0, 1]
     ([request \<lparr>uc_nome = ''ana'', uc_email = ''ana@x.org'', uc_senha = ''pw1''\<rparr> ''ab''
         1700000000000000,
       request \<lparr>uc_nome = ''bia'', uc_email = ''ana@x.org'', uc_senha = ''pw2''\<rparr> ''cd''
         1700000000000001], []))) =
     [Returned (Inr \<lparr>jwt = encode sample_hmac ''k'' 1700000000000000 ''ana@x.org''\<rparr>),
      Returned (Inl IntegrityError)]"
proof -
  have d: "distinct (map email ([] :: database))"
    by simp
  from d run_email_unique [OF d, of sample_crypt sample_hmac "''k''" "[0, 1, 0, 1, 0, 1]"
      "[request \<lparr>uc_nome = ''ana'', uc_email = ''ana@x.org'', uc_senha = ''pw1''\<rparr> ''ab''
         1700000000000000,
       request \<lparr>uc_nome = ''bia'', uc_email = ''ana@x.org'', uc_senha = ''pw2''\<rparr> ''cd''
         1700000000000001]"]
  show ?thesis
    by (simp add: request_def registrar_step_def commit_add_def sample_crypt_def)
qed

text \<open>
  A request that runs alone, its three steps one after the other, does what \<open>registrar\<close>
  does.
\<close>

lemma registrar_atomic:
  "run C h k [0, 0, 0] ([request user salt now], db) =
     ([\<lparr>t_user = user, t_salt = salt, t_now = now,
        t_pc = Returned (fst (registrar C h k salt now user db))\<rparr>],
      snd (registrar C h k salt now user db))"
  by (auto simp: request_def registrar_step_def registrar_def
      split: sum.splits option.splits)

text \<open>
  C6: the claim is that in every reachable store no two rows share an email, no two rows
  share a name, and no password column holds a plaintext. Names are kept apart only by
  the query of \<open>registrar\<close>, and the column \<open>nome\<close> has no unique constraint. Two
  requests in flight together, with the same name and different emails, both pass both
  queries before either commits; both commits succeed, both requests return a token, and
  the store holds two rows with the same name.
\<close>

theorem registrar_race:
  "snd (run sample_crypt sample_hmac ''k'' [0, 1, 0, 1, 0, 1]
     ([request \<lparr>uc_nome = ''ana'', uc_email = ''ana@x.org'', uc_senha = ''pw1''\<rparr> ''ab''
         1700000000000000,
       request \<lparr>uc_nome = ''ana'', uc_email = ''ana@y.org'', uc_senha = ''pw2''\<rparr> ''cd''
         1700000000000001], [])) =
     [\<lparr>user_id = 1, nome = ''ana'', email = ''ana@x.org'', senha = ''$6$ab$1wp''\<rparr>,
      \<lparr>user_id = 2, nome = ''ana'', email = ''ana@y.org'', senha = ''$6$cd$2wp''\<rparr>] \<and>
   \<not> distinct (map nome (snd (run sample_crypt sample_hmac ''k'' [0, 1, 0, 1, 0, 1]
     ([request \<lparr>uc_nome = ''ana'', uc_email = ''ana@x.org'', uc_senha = ''pw1''\<rparr> ''ab''
         1700000000000000,
       request \<lparr>uc_nome = ''ana'', uc_email = ''ana@y.org'', uc_senha = ''pw2''\<rparr> ''cd''
         1700000000000001], [])))) \<and>
   map t_pc (fst (run sample_crypt sample_hmac ''k'' [0, 1, 0, 1, 0, 1]
     ([request \<lparr>uc_nome = ''ana'', uc_email = ''ana@x.org'', uc_senha = ''pw1''\<rparr> ''ab''
         1700000000000000,
       request \<lparr>uc_nome = ''ana'', uc_email = ''ana@y.org'', uc_senha = ''pw2''\<rparr> ''cd''
         1700000000000001], []))) =
     [Returned (Inr \<lparr>jwt = encode sample_hmac ''k'' 1700000000000000 ''ana@x.org''\<rparr>),
      Returned (Inr \<lparr>jwt = encode sample_hmac ''k'' 1700000000000001 ''ana@y.org''\<rparr>)]"
  by (simp add: request_def registrar_step_def commit_add_def sample_crypt_def)

section \<open>Properties of the data aggregation\<close>


lemma apply_unquote_plus_map:
  "apply_unquote_plus (map (\<lambda>l. S (f l)) xs) = Inr (map (\<lambda>l. S (unquote_plus (f l))) xs)"
  by (induction xs) simp_all

lemma astype_int_map: "astype_int (map (\<lambda>l. I (f l)) xs) = Inr (map (\<lambda>l. I (f l)) xs)"
  by (induction xs) simp_all

lemma zip_map_update:
  "map (\<lambda>(r, v). r[i := v]) (zip (map f xs) (map g xs)) = map (\<lambda>x. (f x)[i := g x]) xs"
  by (induction xs) simp_all

lemma player_data_eq:
  "player_data feed =
     Inr \<lparr>columns = [''id'', ''name'', ''alliance_id'', ''points'', ''rank'', ''towns''],
          rows = map decoded_cells feed\<rparr>"
proof -
  let ?cols = "[''id'', ''name'', ''alliance_id'', ''points'', ''rank'', ''towns'']"
  let ?d0 = "read_data (map player_cells feed) ?cols"
  have n: "get_column ?d0 ''name'' = Inr (map (\<lambda>l. S (pl_name l)) feed)"
    by (simp add: get_column_def read_data_def player_cells_def)
  let ?d1 = "set_column ?d0 ''name'' (map (\<lambda>l. S (unquote_plus (pl_name l))) feed)"
  have d1: "?d1 = \<lparr>columns = ?cols,
      rows = map (\<lambda>l. (player_cells l)[1 := S (unquote_plus (pl_name l))]) feed\<rparr>"
    by (simp add: set_column_def read_data_def zip_map_update)
  have a: "get_column ?d1 ''alliance_id'' =
      Inr (map (\<lambda>l. case pl_alliance_id l of None \<Rightarrow> NaN | Some a \<Rightarrow> I a) feed)"
    unfolding d1 by (simp add: get_column_def player_cells_def)
  have f: "fillna (map (\<lambda>l. case pl_alliance_id l of None \<Rightarrow> NaN | Some a \<Rightarrow> I a) feed) (- 1) =
      map (\<lambda>l. I (case pl_alliance_id l of None \<Rightarrow> - 1 | Some a \<Rightarrow> a)) feed"
    by (simp add: fillna_def split: option.splits)
  have d2: "set_column ?d1 ''alliance_id''
        (map (\<lambda>l. I (case pl_alliance_id l of None \<Rightarrow> - 1 | Some a \<Rightarrow> a)) feed) =
      \<lparr>columns = ?cols, rows = map decoded_cells feed\<rparr>"
    unfolding d1 by (simp add: set_column_def zip_map_update player_cells_def)
  show ?thesis
    unfolding player_data_def Let_def
    by (simp only: n apply_unquote_plus_map a f astype_int_map d2 sum.case)
qed


lemma kills_frames:
  "player_combat_data f =
     \<lparr>columns = [''combat_rank'', ''player_id'', ''combat_points''], rows = map kills_cells f\<rparr>"
  "player_attack_data f =
     \<lparr>columns = [''attack_rank'', ''player_id'', ''attack_points''], rows = map kills_cells f\<rparr>"
  "player_defense_data f =
     \<lparr>columns = [''defense_rank'', ''player_id'', ''defense_points''], rows = map kills_cells f\<rparr>"
  by (simp_all add: player_combat_data_def player_attack_data_def player_defense_data_def
      rename_def read_data_def COMBAT_COLUMNS_def)

lemma keep_indices:
  "filter (\<lambda>i. [''id'', ''name'', ''alliance_id'', ''points'', ''rank'', ''towns'',
       ''combat_rank'', ''player_id'', ''combat_points'',
       ''attack_rank'', ''player_id_atk'', ''attack_points'',
       ''defense_rank'', ''player_id_def'', ''defense_points''] ! i
         \<notin> set [''player_id'', ''player_id_atk'', ''player_id_def''])
     [0..<15] = [0, 1, 2, 3, 4, 5, 6, 8, 9, 11, 12, 14]"
  by code_simp

lemma merge_combat:
  "merge \<lparr>columns = [''id'', ''name'', ''alliance_id'', ''points'', ''rank'', ''towns''],
          rows = rs\<rparr>
     (player_combat_data kills_all) ''id'' ''player_id'' (''_x'', ''_y'') =
   Inr \<lparr>columns = [''id'', ''name'', ''alliance_id'', ''points'', ''rank'', ''towns'',
          ''combat_rank'', ''player_id'', ''combat_points''],
        rows = concat (map (join_row 0 1 (player_combat_data kills_all)) rs)\<rparr>"
  by (simp add: merge_def kills_frames)

lemma merge_attack:
  "merge \<lparr>columns = [''id'', ''name'', ''alliance_id'', ''points'', ''rank'', ''towns'',
          ''combat_rank'', ''player_id'', ''combat_points''],
          rows = rs\<rparr>
     (player_attack_data kills_att) ''id'' ''player_id'' ('''', ''_atk'') =
   Inr \<lparr>columns = [''id'', ''name'', ''alliance_id'', ''points'', ''rank'', ''towns'',
          ''combat_rank'', ''player_id'', ''combat_points'',
          ''attack_rank'', ''player_id_atk'', ''attack_points''],
        rows = concat (map (join_row 0 1 (player_attack_data kills_att)) rs)\<rparr>"
  by (simp add: merge_def kills_frames)

lemma merge_defense:
  "merge \<lparr>columns = [''id'', ''name'', ''alliance_id'', ''points'', ''rank'', ''towns'',
          ''combat_rank'', ''player_id'', ''combat_points'',
          ''attack_rank'', ''player_id_atk'', ''attack_points''],
          rows = rs\<rparr>
     (player_defense_data kills_def) ''id'' ''player_id'' ('''', ''_def'') =
   Inr \<lparr>columns = [''id'', ''name'', ''alliance_id'', ''points'', ''rank'', ''towns'',
          ''combat_rank'', ''player_id'', ''combat_points'',
          ''attack_rank'', ''player_id_atk'', ''attack_points'',
          ''defense_rank'', ''player_id_def'', ''defense_points''],
        rows = concat (map (join_row 0 1 (player_defense_data kills_def)) rs)\<rparr>"
  by (simp add: merge_def kills_frames)

lemma drop_keys:
  "drop_columns
     \<lparr>columns = [''id'', ''name'', ''alliance_id'', ''points'', ''rank'', ''towns'',
          ''combat_rank'', ''player_id'', ''combat_points'',
          ''attack_rank'', ''player_id_atk'', ''attack_points'',
          ''defense_rank'', ''player_id_def'', ''defense_points''],
      rows = rs\<rparr>
     [''player_id'', ''player_id_atk'', ''player_id_def''] =
   Inr \<lparr>columns = [''id'', ''name'', ''alliance_id'', ''points'', ''rank'', ''towns'',
           ''combat_rank'', ''combat_points'', ''attack_rank'', ''attack_points'',
           ''defense_rank'', ''defense_points''],
        rows = map (\<lambda>r. map (\<lambda>i. r ! i) [0, 1, 2, 3, 4, 5, 6, 8, 9, 11, 12, 14]) rs\<rparr>"
proof -
  have len: "length [''id'', ''name'', ''alliance_id'', ''points'', ''rank'', ''towns'',
          ''combat_rank'', ''player_id'', ''combat_points'',
          ''attack_rank'', ''player_id_atk'', ''attack_points'',
          ''defense_rank'', ''player_id_def'', ''defense_points''] = 15"
    by simp
  show ?thesis
    unfolding drop_columns_def Let_def DataFrame.simps len keep_indices
    by simp
qed

lemma merged_eq:
  "bind (player_data players) (\<lambda>d0.
     bind (merge d0 (player_combat_data kills_all) ''id'' ''player_id'' (''_x'', ''_y'')) (\<lambda>d1.
     bind (merge d1 (player_attack_data kills_att) ''id'' ''player_id'' ('''', ''_atk'')) (\<lambda>d2.
     bind (merge d2 (player_defense_data kills_def) ''id'' ''player_id'' ('''', ''_def'')) (\<lambda>d3.
     drop_columns d3 [''player_id'', ''player_id_atk'', ''player_id_def''])))) =
   Inr \<lparr>columns = [''id'', ''name'', ''alliance_id'', ''points'', ''rank'', ''towns'',
           ''combat_rank'', ''combat_points'', ''attack_rank'', ''attack_points'',
           ''defense_rank'', ''defense_points''],
        rows = map (\<lambda>r. map (\<lambda>i. r ! i) [0, 1, 2, 3, 4, 5, 6, 8, 9, 11, 12, 14])
                 (joined players kills_all kills_att kills_def)\<rparr>"
  by (simp only: bind_def player_data_eq merge_combat merge_attack merge_defense drop_keys
      sum.case)

lemma join_row_kills:
  "join_row 0 1 \<lparr>columns = [a, b, c], rows = map kills_cells f\<rparr> (I n # l) =
     (case filter (\<lambda>k. kl_player_id k = n) f of
        [] \<Rightarrow> [(I n # l) @ [NaN, NaN, NaN]]
      | k # ks \<Rightarrow> map (\<lambda>k. (I n # l) @ kills_cells k) (k # ks))"
proof -
  have "filter (\<lambda>r. r ! 1 = (I n # l) ! 0) (map kills_cells f) =
      map kills_cells (filter (\<lambda>k. kl_player_id k = n) f)"
    by (simp add: filter_map comp_def kills_cells_def)
  then show ?thesis
    by (simp add: join_row_def numeral_3_eq_3 split: list.splits)
qed

lemmas join_row_kills_Suc = join_row_kills [unfolded One_nat_def]

lemma join_row_prefix:
  assumes "r \<in> set (join_row 0 1 \<lparr>columns = [a, b, c], rows = map kills_cells f\<rparr> (I n # l))"
  shows "\<exists>x. length x = 3 \<and> r = (I n # l) @ x"
proof (cases "filter (\<lambda>k. kl_player_id k = n) f")
  case Nil
  with assms have "r = (I n # l) @ [NaN, NaN, NaN]"
    by (simp add: join_row_kills_Suc)
  then show ?thesis by simp
next
  case (Cons k ks)
  with assms obtain k' where "r = (I n # l) @ kills_cells k'"
    by (auto simp: join_row_kills_Suc)
  then show ?thesis by (simp add: kills_cells_def)
qed



text \<open>One join step keeps the shape of the rows: the cells of a player, then the joined cells.\<close>

lemma join_step_shape:
  assumes "\<forall>l \<in> set ls. \<exists>p \<in> set players. \<exists>x. length x = m \<and> l = decoded_cells p @ x"
      and "r \<in> set (concat (map (join_row 0 1 \<lparr>columns = [a, b, c], rows = map kills_cells f\<rparr>) ls))"
  shows "\<exists>p \<in> set players. \<exists>x. length x = m + 3 \<and> r = decoded_cells p @ x"
proof -
  from assms(2) obtain l where l: "l \<in> set ls"
    and r: "r \<in> set (join_row 0 1 \<lparr>columns = [a, b, c], rows = map kills_cells f\<rparr> l)"
    by auto
  from assms(1) l obtain p x where p: "p \<in> set players" "length x = m" "l = decoded_cells p @ x"
    by blast
  from p(3) have l': "l = I (pl_id p) # (tl (decoded_cells p) @ x)"
    by simp
  from join_row_prefix [OF r [unfolded l']] obtain y where "length y = 3" "r = l @ y"
    unfolding l' by blast
  with p show ?thesis
    by (intro bexI [of _ p] exI [of _ "x @ y"]) auto
qed


lemma joined_shape:
  assumes "r \<in> set (joined players kills_all kills_att kills_def)"
  shows "\<exists>p \<in> set players. \<exists>x. length x = 9 \<and> r = decoded_cells p @ x"
proof -
  have s0: "\<forall>l \<in> set (map decoded_cells players).
      \<exists>p \<in> set players. \<exists>x. length x = 0 \<and> l = decoded_cells p @ x"
    by auto
  have s1: "\<forall>l \<in> set (concat (map (join_row 0 1 (player_combat_data kills_all))
        (map decoded_cells players))).
      \<exists>p \<in> set players. \<exists>x. length x = 0 + 3 \<and> l = decoded_cells p @ x"
    unfolding kills_frames using join_step_shape [OF s0] by blast
  have s2: "\<forall>l \<in> set (concat (map (join_row 0 1 (player_attack_data kills_att))
        (concat (map (join_row 0 1 (player_combat_data kills_all))
        (map decoded_cells players))))).
      \<exists>p \<in> set players. \<exists>x. length x = 0 + 3 + 3 \<and> l = decoded_cells p @ x"
    unfolding kills_frames(2) using join_step_shape [OF s1] by blast
  have "\<exists>p \<in> set players. \<exists>x. length x = 0 + 3 + 3 + 3 \<and> r = decoded_cells p @ x"
    using join_step_shape [OF s2] assms unfolding kills_frames(3) by blast
  then show ?thesis by simp
qed


lemma kept_shape:
  assumes "length x = 9"
  shows "kept (decoded_cells p @ x) =
           decoded_cells p @ [x ! 0, x ! 2, x ! 3, x ! 5, x ! 6, x ! 8]"
  using assms by (simp add: nth_append)

lemma kept_rank:
  assumes "r \<in> set (map kept (joined players kills_all kills_att kills_def))"
  shows "\<exists>p \<in> set players. r ! 4 = I (pl_rank p) \<and> take 6 r = decoded_cells p \<and> length r = 12"
proof -
  from assms obtain r' where r': "r' \<in> set (joined players kills_all kills_att kills_def)"
    and r: "r = kept r'"
    by auto
  from joined_shape [OF r'] obtain p x where
    p: "p \<in> set players" "length x = 9" "r' = decoded_cells p @ x"
    by blast
  from r p(3) kept_shape [OF p(2), of p]
  have "r = decoded_cells p @ [x ! 0, x ! 2, x ! 3, x ! 5, x ! 6, x ! 8]"
    by simp
  then have "r ! 4 = I (pl_rank p) \<and> take 6 r = decoded_cells p \<and> length r = 12"
    by simp
  with p(1) show ?thesis by blast
qed

lemma loc_rank:
  "get_loc [''id'', ''name'', ''alliance_id'', ''points'', ''rank'', ''towns'',
            ''combat_rank'', ''combat_points'', ''attack_rank'', ''attack_points'',
            ''defense_rank'', ''defense_points''] ''rank'' = Some 4"
  by simp

lemma sort_values_rank:
  assumes "\<not> list_ex (\<lambda>r. is_string (r ! 4)) rs"
  shows "sort_values
      \<lparr>columns = [''id'', ''name'', ''alliance_id'', ''points'', ''rank'', ''towns'',
            ''combat_rank'', ''combat_points'', ''attack_rank'', ''attack_points'',
            ''defense_rank'', ''defense_points''], rows = rs\<rparr> ''rank'' =
      Inr \<lparr>columns = [''id'', ''name'', ''alliance_id'', ''points'', ''rank'', ''towns'',
            ''combat_rank'', ''combat_points'', ''attack_rank'', ''attack_points'',
            ''defense_rank'', ''defense_points''],
          rows = sort_key (\<lambda>r. sort_key_of (r ! 4)) rs\<rparr>"
  unfolding sort_values_def DataFrame.simps loc_rank option.case
  using assms by simp

lemma get_players_data_eq:
  "get_players_data players kills_all kills_att kills_def =
     Inr \<lparr>columns = [''id'', ''name'', ''alliance_id'', ''points'', ''rank'', ''towns'',
            ''combat_rank'', ''combat_points'', ''attack_rank'', ''attack_points'',
            ''defense_rank'', ''defense_points''],
          rows = sort_key (\<lambda>r. sort_key_of (r ! 4))
                   (map kept (joined players kills_all kills_att kills_def))\<rparr>"
proof -
  let ?rs = "map kept (joined players kills_all kills_att kills_def)"
  have "\<not> list_ex (\<lambda>r. is_string (r ! 4)) ?rs"
    unfolding list_ex_iff using kept_rank [where players = players and kills_all = kills_all and kills_att = kills_att and kills_def = kills_def]
    by fastforce
  then have s: "sort_values
      \<lparr>columns = [''id'', ''name'', ''alliance_id'', ''points'', ''rank'', ''towns'',
            ''combat_rank'', ''combat_points'', ''attack_rank'', ''attack_points'',
            ''defense_rank'', ''defense_points''], rows = ?rs\<rparr> ''rank'' =
      Inr \<lparr>columns = [''id'', ''name'', ''alliance_id'', ''points'', ''rank'', ''towns'',
            ''combat_rank'', ''combat_points'', ''attack_rank'', ''attack_points'',
            ''defense_rank'', ''defense_points''],
          rows = sort_key (\<lambda>r. sort_key_of (r ! 4)) ?rs\<rparr>"
    by (rule sort_values_rank)
  show ?thesis
    unfolding get_players_data_def
    by (simp only: bind_def player_data_eq merge_combat merge_attack merge_defense drop_keys
        sum.case s)
qed

lemma sorted_numbers:
  assumes "sorted (map (\<lambda>r. sort_key_of (r ! i)) rs)"
      and "\<forall>r \<in> set rs. r ! i = I (g r)"
  shows "sorted (map g rs)"
proof -
  from assms(1) have "sorted_wrt (\<lambda>a b. sort_key_of (a ! i) \<le> sort_key_of (b ! i)) rs"
    by (simp add: sorted_map)
  then have "sorted_wrt (\<lambda>a b. g a \<le> g b) rs"
  proof (rule sorted_wrt_mono_rel [rotated])
    fix a b
    assume "a \<in> set rs" "b \<in> set rs" "sort_key_of (a ! i) \<le> sort_key_of (b ! i)"
    with assms(2) show "g a \<le> g b"
      by (auto simp: less_eq_prod_def)
  qed
  then show ?thesis by (simp add: sorted_map)
qed

text \<open>
  C7: the rows that \<open>get_players_data\<close> returns are in ascending order of the column
  \<open>rank\<close>, which holds the ranks of the players' feed.
\<close>

theorem get_players_data_sorted:
  assumes "get_players_data players kills_all kills_att kills_def = Inr df"
  shows "\<exists>ranks. get_column df ''rank'' = Inr (map I ranks) \<and> sorted ranks"
proof -
  let ?rs = "map kept (joined players kills_all kills_att kills_def)"
  let ?out = "sort_key (\<lambda>r. sort_key_of (r ! 4)) ?rs"
  from assms have df: "df = \<lparr>columns = [''id'', ''name'', ''alliance_id'', ''points'', ''rank'',
      ''towns'', ''combat_rank'', ''combat_points'', ''attack_rank'', ''attack_points'',
      ''defense_rank'', ''defense_points''], rows = ?out\<rparr>"
    by (simp add: get_players_data_eq)
  have num: "\<forall>r \<in> set ?out. r ! 4 = I ((case r ! 4 of I n \<Rightarrow> n | _ \<Rightarrow> 0))"
    using kept_rank [where players = players and kills_all = kills_all and kills_att = kills_att and kills_def = kills_def] by fastforce
  have "sorted (map (\<lambda>r. sort_key_of (r ! 4)) ?out)"
    by (rule sorted_sort_key)
  from sorted_numbers [OF this num] have "sorted (map (\<lambda>r. (case r ! 4 of I n \<Rightarrow> n | _ \<Rightarrow> 0)) ?out)" .
  moreover have "get_column df ''rank'' = Inr (map I (map (\<lambda>r. (case r ! 4 of I n \<Rightarrow> n | _ \<Rightarrow> 0)) ?out))"
    unfolding df using num by (simp add: get_column_def)
  ultimately show ?thesis by blast
qed








lemma sample_aggregation:
  "get_players_data
     [\<lparr>pl_id = 2, pl_name = ''C%20D'', pl_alliance_id = Some 7, pl_points = 90, pl_rank = 2,
        pl_towns = 4\<rparr>,
      \<lparr>pl_id = 1, pl_name = ''A+B'', pl_alliance_id = None, pl_points = 100, pl_rank = 1,
        pl_towns = 3\<rparr>]
     [\<lparr>kl_rank = 5, kl_player_id = 2, kl_points = 50\<rparr>] []
     [\<lparr>kl_rank = 6, kl_player_id = 2, kl_points = 40\<rparr>] =
   Inr \<lparr>columns = [''id'', ''name'', ''alliance_id'', ''points'', ''rank'', ''towns'',
          ''combat_rank'', ''combat_points'', ''attack_rank'', ''attack_points'',
          ''defense_rank'', ''defense_points''],
        rows = [[I 1, S ''A B'', I (- 1), I 100, I 1, I 3, NaN, NaN, NaN, NaN, NaN, NaN],
                [I 2, S ''C D'', I 7, I 90, I 2, I 4, I 5, I 50, NaN, NaN, I 6, I 40]]\<rparr>"
  by code_simp


theorem get_players_data_sorted_witness:
  "get_column
     \<lparr>columns = [''id'', ''name'', ''alliance_id'', ''points'', ''rank'', ''towns'',
          ''combat_rank'', ''combat_points'', ''attack_rank'', ''attack_points'',
          ''defense_rank'', ''defense_points''],
        rows = [[I 1, S ''A B'', I (- 1), I 100, I 1, I 3, NaN, NaN, NaN, NaN, NaN, NaN],
                [I 2, S ''C D'', I 7, I 90, I 2, I 4, I 5, I 50, NaN, NaN, I 6, I 40]]\<rparr>
     ''rank'' = Inr (map I [1, 2]) \<and> sorted [1, 2 :: int]"
  using get_players_data_sorted [OF sample_aggregation]
  by (simp add: get_column_def)


end
